theory Spec2Isabelle
  imports Main "HOL-Library.Word"
begin

unbundle bit_operations_syntax

section \<open>Exceptions and the shared byte buffer\<close>

text \<open>
  The module \<open>shared_memory.py\<close> keeps every record in one named byte buffer
  (\<open>self.shm.buf\<close>, a memoryview).  The buffer is modelled as an explicit store: its
  length and a map from addresses to bytes.  Offsets are Python integers, so addresses
  are of type \<open>int\<close>; the bytes of the buffer are those at \<open>0 \<le> i < shm_size\<close>.  Every
  exception the Python code can raise is a value of \<open>error\<close>, and a function that can
  raise returns \<open>error + 'a\<close>.
\<close>

datatype error =
    ValueError
  | RuntimeError
  | IndexError
  | TypeError
  | OverflowError
  | UnicodeEncodeError
  | AttributeError

type_synonym byte = "8 word"

record segment =
  shm_size :: nat
  shm_buf :: "int \<Rightarrow> byte"

text \<open>
  A slice \<open>buf[start:stop]\<close> never raises: a negative bound counts from the end, and
  both bounds are clamped to the buffer.
\<close>

definition slice_bound :: "nat \<Rightarrow> int \<Rightarrow> int" where
  "slice_bound len i = (if i < 0 then max 0 (i + int len) else min i (int len))"

definition buf_slice :: "segment \<Rightarrow> int \<Rightarrow> int \<Rightarrow> byte list" where
  "buf_slice m start stop =
     map (shm_buf m) [slice_bound (shm_size m) start .. slice_bound (shm_size m) stop - 1]"

text \<open>\<open>buf[start:stop] = bs\<close>: raises ValueError unless the slice has the length of the
  bytes assigned.\<close>

definition buf_set_slice :: "segment \<Rightarrow> int \<Rightarrow> int \<Rightarrow> byte list \<Rightarrow> error + segment" where
  "buf_set_slice m start stop bs =
     (let lo = slice_bound (shm_size m) start;
          hi = slice_bound (shm_size m) stop
      in if length (buf_slice m start stop) = length bs
         then Inr (m\<lparr>shm_buf := (\<lambda>i. if lo \<le> i \<and> i < lo + int (length bs)
                                         then bs ! nat (i - lo) else shm_buf m i)\<rparr>)
         else Inl ValueError)"

text \<open>\<open>buf[i]\<close> and \<open>buf[i] = v\<close>: a negative index counts from the end; IndexError out
  of range.\<close>

definition buf_index :: "nat \<Rightarrow> int \<Rightarrow> int option" where
  "buf_index len i =
     (let j = (if i < 0 then i + int len else i)
      in if 0 \<le> j \<and> j < int len then Some j else None)"

definition buf_get :: "segment \<Rightarrow> int \<Rightarrow> error + byte" where
  "buf_get m i =
     (case buf_index (shm_size m) i of None \<Rightarrow> Inl IndexError | Some j \<Rightarrow> Inr (shm_buf m j))"

definition buf_set :: "segment \<Rightarrow> int \<Rightarrow> byte \<Rightarrow> error + segment" where
  "buf_set m i v =
     (case buf_index (shm_size m) i of
        None \<Rightarrow> Inl IndexError
      | Some j \<Rightarrow> Inr (m\<lparr>shm_buf := (shm_buf m)(j := v)\<rparr>))"

text \<open>
  \<open>np.ndarray(count, dtype, buffer=buf, offset=offset)\<close>, a view of \<open>count\<close> items of
  \<open>itemsize\<close> bytes: NumPy raises ValueError for a negative count and for an offset that
  is negative or beyond the buffer, and TypeError when the buffer is too small for the
  view.  \<open>None\<close> means that the view is made.
\<close>

definition ndarray_view :: "segment \<Rightarrow> int \<Rightarrow> nat \<Rightarrow> int \<Rightarrow> error option" where
  "ndarray_view m count itemsize offset =
     (if count < 0 then Some ValueError
      else if offset < 0 \<or> int (shm_size m) < offset then Some ValueError
      else if int (shm_size m) < offset + count * int itemsize then Some TypeError
      else None)"

section \<open>Little-endian integers\<close>

text \<open>\<open>int.from_bytes(bs, 'little')\<close> and \<open>value.to_bytes(n, 'little')\<close>; the latter raises
  OverflowError for a negative value and for one that needs more than \<open>n\<close> bytes.\<close>

fun from_bytes_le :: "byte list \<Rightarrow> nat" where
  "from_bytes_le [] = 0"
| "from_bytes_le (b # bs) = unat b + 256 * from_bytes_le bs"

fun to_bytes_le :: "nat \<Rightarrow> nat \<Rightarrow> byte list" where
  "to_bytes_le 0 v = []"
| "to_bytes_le (Suc n) v = of_nat (v mod 256) # to_bytes_le n (v div 256)"

definition to_bytes :: "nat \<Rightarrow> int \<Rightarrow> error + byte list" where
  "to_bytes n v =
     (if 0 \<le> v \<and> v < 256 ^ n then Inr (to_bytes_le n (nat v)) else Inl OverflowError)"

definition read_uint64 :: "segment \<Rightarrow> int \<Rightarrow> int" where
  "read_uint64 m offset = int (from_bytes_le (buf_slice m offset (offset + 8)))"

definition write_uint64 :: "segment \<Rightarrow> int \<Rightarrow> int \<Rightarrow> error + segment" where
  "write_uint64 m offset v =
     (case to_bytes 8 v of
        Inl e \<Rightarrow> Inl e
      | Inr bs \<Rightarrow> buf_set_slice m offset (offset + 8) bs)"

definition read_uint32 :: "segment \<Rightarrow> int \<Rightarrow> nat" where
  "read_uint32 m offset = from_bytes_le (buf_slice m offset (offset + 4))"

definition write_uint32 :: "segment \<Rightarrow> int \<Rightarrow> int \<Rightarrow> error + segment" where
  "write_uint32 m offset v =
     (case to_bytes 4 v of
        Inl e \<Rightarrow> Inl e
      | Inr bs \<Rightarrow> buf_set_slice m offset (offset + 4) bs)"

section \<open>UTF-8\<close>

text \<open>
  A Python \<open>str\<close> is a sequence of code points; \<open>len\<close> and slicing count code points.
  \<open>value.encode('utf-8')\<close> raises UnicodeEncodeError on a surrogate (U+D800..U+DFFF).
\<close>

type_synonym pystr = "nat list"

definition utf8_encode_cp :: "nat \<Rightarrow> error + byte list" where
  "utf8_encode_cp c =
     (if c < 0x80 then Inr [of_nat c]
      else if c < 0x800 then Inr [of_nat (0xC0 + c div 64), of_nat (0x80 + c mod 64)]
      else if 0xD800 \<le> c \<and> c < 0xE000 then Inl UnicodeEncodeError
      else if c < 0x10000 then
        Inr [of_nat (0xE0 + c div 4096), of_nat (0x80 + c div 64 mod 64),
             of_nat (0x80 + c mod 64)]
      else if c < 0x110000 then
        Inr [of_nat (0xF0 + c div 262144), of_nat (0x80 + c div 4096 mod 64),
             of_nat (0x80 + c div 64 mod 64), of_nat (0x80 + c mod 64)]
      else Inl UnicodeEncodeError)"

fun utf8_encode :: "pystr \<Rightarrow> error + byte list" where
  "utf8_encode [] = Inr []"
| "utf8_encode (c # cs) =
     (case utf8_encode_cp c of
        Inl e \<Rightarrow> Inl e
      | Inr bs \<Rightarrow> (case utf8_encode cs of Inl e \<Rightarrow> Inl e | Inr rest \<Rightarrow> Inr (bs @ rest)))"

text \<open>
  \<open>encoded.decode('utf-8', errors='ignore')\<close>.  One step of the decoder looks at the lead
  byte \<open>b\<close> and the bytes \<open>bs\<close> after it and returns the code points it emits (none or
  one) and how many bytes of \<open>bs\<close> it consumes.  With \<open>errors='ignore'\<close> an ill-formed
  sequence emits nothing: an invalid start byte is skipped, an invalid continuation byte
  ends the sequence before it (the lead bytes read so far are skipped), and a sequence
  cut off by the end of the data is skipped to the end.
\<close>

definition is_continuation_byte :: "nat \<Rightarrow> bool" where
  "is_continuation_byte c \<longleftrightarrow> 0x80 \<le> c \<and> c < 0xC0"

definition utf8_step :: "nat \<Rightarrow> nat list \<Rightarrow> nat list \<times> nat" where
  "utf8_step ch s =
     (if ch < 0x80 then ([ch], 0)
      else if ch < 0xC2 then ([], 0)
      else if ch < 0xE0 then
        (case s of
           [] \<Rightarrow> ([], 0)
         | ch2 # _ \<Rightarrow>
             if \<not> is_continuation_byte ch2 then ([], 0)
             else ([(ch - 0xC0) * 64 + (ch2 - 0x80)], 1))
      else if ch < 0xF0 then
        (case s of
           [] \<Rightarrow> ([], 0)
         | [ch2] \<Rightarrow>
             if \<not> is_continuation_byte ch2
                \<or> (if ch2 < 0xA0 then ch = 0xE0 else ch = 0xED) then ([], 0)
             else ([], 1)
         | ch2 # ch3 # _ \<Rightarrow>
             if \<not> is_continuation_byte ch2 then ([], 0)
             else if ch = 0xE0 \<and> ch2 < 0xA0 then ([], 0)
             else if ch = 0xED \<and> ch2 \<ge> 0xA0 then ([], 0)
             else if \<not> is_continuation_byte ch3 then ([], 1)
             else ([(ch - 0xE0) * 4096 + (ch2 - 0x80) * 64 + (ch3 - 0x80)], 2))
      else if ch < 0xF5 then
        (case s of
           [] \<Rightarrow> ([], 0)
         | [ch2] \<Rightarrow>
             if \<not> is_continuation_byte ch2
                \<or> (if ch2 < 0x90 then ch = 0xF0 else ch = 0xF4) then ([], 0)
             else ([], 1)
         | [ch2, ch3] \<Rightarrow>
             if \<not> is_continuation_byte ch2
                \<or> (if ch2 < 0x90 then ch = 0xF0 else ch = 0xF4) then ([], 0)
             else if \<not> is_continuation_byte ch3 then ([], 1)
             else ([], 2)
         | ch2 # ch3 # ch4 # _ \<Rightarrow>
             if \<not> is_continuation_byte ch2 then ([], 0)
             else if ch = 0xF0 \<and> ch2 < 0x90 then ([], 0)
             else if ch = 0xF4 \<and> ch2 \<ge> 0x90 then ([], 0)
             else if \<not> is_continuation_byte ch3 then ([], 1)
             else if \<not> is_continuation_byte ch4 then ([], 2)
             else ([(ch - 0xF0) * 262144 + (ch2 - 0x80) * 4096 + (ch3 - 0x80) * 64
                    + (ch4 - 0x80)], 3))
      else ([], 0))"

fun utf8_decode_nat :: "nat list \<Rightarrow> pystr" where
  "utf8_decode_nat [] = []"
| "utf8_decode_nat (ch # s) =
     (case utf8_step ch s of (out, k) \<Rightarrow> out @ utf8_decode_nat (drop k s))"

definition utf8_decode_ignore :: "byte list \<Rightarrow> pystr" where
  "utf8_decode_ignore bs = utf8_decode_nat (map unat bs)"

section \<open>Field status\<close>

text \<open>Class \<open>FieldStatus\<close>: one status byte per field, three mask bits.\<close>

definition MASK_TRUNCATED :: byte where "MASK_TRUNCATED = 1"
definition MASK_UNWRITTEN :: byte where "MASK_UNWRITTEN = 2"
definition MASK_MODIFIED :: byte where "MASK_MODIFIED = 4"

definition is_truncated :: "byte \<Rightarrow> bool" where
  "is_truncated status \<longleftrightarrow> status AND MASK_TRUNCATED \<noteq> 0"

definition is_unwritten :: "byte \<Rightarrow> bool" where
  "is_unwritten status \<longleftrightarrow> status AND MASK_UNWRITTEN \<noteq> 0"

definition is_modified :: "byte \<Rightarrow> bool" where
  "is_modified status \<longleftrightarrow> status AND MASK_MODIFIED \<noteq> 0"

definition is_valid :: "byte \<Rightarrow> bool" where
  "is_valid status \<longleftrightarrow> \<not> (is_truncated status \<or> is_unwritten status)"

section \<open>Values\<close>

datatype dtype =
    Float32 | Float64 | Int8 | Int16 | Int32 | Int64
  | Uint8 | Uint16 | Uint32 | Uint64 | Bool8

definition itemsize :: "dtype \<Rightarrow> nat" where
  "itemsize d =
     (case d of
        Float32 \<Rightarrow> 4 | Float64 \<Rightarrow> 8 | Int8 \<Rightarrow> 1 | Int16 \<Rightarrow> 2 | Int32 \<Rightarrow> 4 | Int64 \<Rightarrow> 8
      | Uint8 \<Rightarrow> 1 | Uint16 \<Rightarrow> 2 | Uint32 \<Rightarrow> 4 | Uint64 \<Rightarrow> 8 | Bool8 \<Rightarrow> 1)"

text \<open>
  The values a caller passes to \<open>write\<close> and gets back from \<open>read\<close>.  A Python \<open>float\<close>
  is an IEEE-754 binary64 and is represented by its 64 bits; a NumPy array is
  represented by its dtype, its shape and the bit patterns of its elements in row-major
  order, each of the item size of the dtype.  No floating-point arithmetic is modelled:
  equality of floats and of array elements below is equality of bit patterns.
\<close>

datatype pyvalue =
    PyFloat "64 word"
  | PyInt int
  | PyBool bool
  | PyStr pystr
  | PyArray dtype "nat list" "nat list"

text \<open>
  NumPy converts the source value when it is stored.  These conversions are not code of
  this repository and involve floating-point arithmetic; they are parameters of the
  model:
  \<^item> \<open>np_float64 v\<close> and \<open>np_int32 v\<close>: the bits that \<open>a[0] = v\<close> stores in an array of
    \<open>float64\<close> or \<open>int32\<close>, or the exception it raises;
  \<^item> \<open>np_asarray d v\<close>: the shape of \<open>np.asarray(v, dtype=d)\<close> and the bit patterns of its
    \<open>flatten()\<close>, or the exception;
  \<^item> \<open>np_truth v\<close>: the truth value of an array \<open>v\<close>, or the exception.
\<close>

record numpy =
  np_float64 :: "pyvalue \<Rightarrow> error + 64 word"
  np_int32 :: "pyvalue \<Rightarrow> error + 32 word"
  np_asarray :: "dtype \<Rightarrow> pyvalue \<Rightarrow> error + (nat list \<times> nat list)"
  np_truth :: "pyvalue \<Rightarrow> error + bool"

text \<open>Python's truth value of a source value, as in \<open>1 if value else 0\<close>: a float is
  false when it is \<open>0.0\<close> or \<open>-0.0\<close> (all bits but the sign are zero).\<close>

definition truth_value :: "numpy \<Rightarrow> pyvalue \<Rightarrow> error + bool" where
  "truth_value np v =
     (case v of
        PyFloat w \<Rightarrow> Inr (push_bit 1 w \<noteq> 0)
      | PyInt i \<Rightarrow> Inr (i \<noteq> 0)
      | PyBool b \<Rightarrow> Inr b
      | PyStr s \<Rightarrow> Inr (s \<noteq> [])
      | PyArray _ _ _ \<Rightarrow> np_truth np v)"

text \<open>Class \<open>ValueWithStatus\<close>: a value and the status byte read with it.\<close>

record value_with_status =
  vws_value :: pyvalue
  vws_status :: byte

definition valid :: "value_with_status \<Rightarrow> bool" where
  "valid v = is_valid (vws_status v)"

definition modified :: "value_with_status \<Rightarrow> bool" where
  "modified v = is_modified (vws_status v)"

definition truncated :: "value_with_status \<Rightarrow> bool" where
  "truncated v = is_truncated (vws_status v)"

definition unwritten :: "value_with_status \<Rightarrow> bool" where
  "unwritten v = is_unwritten (vws_status v)"

section \<open>Type annotations and the layout\<close>

text \<open>
  A dataclass field's \<open>type\<close> is a Python type object or the text of a string annotation.
  \<open>Type_other s\<close> is any hashable object other than \<open>float\<close>, \<open>int\<close> and \<open>bool\<close>, and
  \<open>Unhashable s\<close> an object that cannot be hashed (a list, say); \<open>s\<close> is what \<open>str\<close>
  prints for it.  The field names of a dataclass are distinct.
\<close>

datatype annotation =
    Type_float | Type_int | Type_bool | Type_other string | Unhashable string | Text string

definition annotation_str :: "annotation \<Rightarrow> string" where
  "annotation_str a =
     (case a of
        Type_float \<Rightarrow> ''<class 'float'>''
      | Type_int \<Rightarrow> ''<class 'int'>''
      | Type_bool \<Rightarrow> ''<class 'bool'>''
      | Type_other s \<Rightarrow> s
      | Unhashable s \<Rightarrow> s
      | Text s \<Rightarrow> s)"

datatype scalar_type = Scalar_float | Scalar_int | Scalar_bool

text \<open>The regular expressions match at the start of the text (\<open>re.match\<close>); \<open>\d+\<close> is
  greedy and the character after it is not a digit, so it takes the longest run of digits.\<close>

definition is_digit :: "char \<Rightarrow> bool" where
  "is_digit c \<longleftrightarrow> c \<in> set ''0123456789''"

definition digit_value :: "char \<Rightarrow> nat" where
  "digit_value c = of_char c - 48"

definition int_of_digits :: "string \<Rightarrow> nat" where
  "int_of_digits ds = foldl (\<lambda>n c. 10 * n + digit_value c) 0 ds"

text \<open>\<open>int(x)\<close> of a text of digits: ValueError for the empty text and for one of more
  than 4300 digits (the limit of Python 3.11 on the conversion of a decimal text).\<close>

definition py_int :: "string \<Rightarrow> error + nat" where
  "py_int x =
     (if x = [] \<or> 4300 < length x then Inl ValueError else Inr (int_of_digits x))"

fun strip_prefix :: "string \<Rightarrow> string \<Rightarrow> string option" where
  "strip_prefix [] s = Some s"
| "strip_prefix (p # ps) [] = None"
| "strip_prefix (p # ps) (c # cs) = (if p = c then strip_prefix ps cs else None)"

text \<open>\<open>parse_string\<close>: \<open>re.match(r'str\[(\d+)\]', annotation)\<close>, then \<open>int\<close> of the group.\<close>

definition parse_string :: "string \<Rightarrow> error + nat option" where
  "parse_string a =
     (case strip_prefix ''str['' a of
        None \<Rightarrow> Inr None
      | Some r \<Rightarrow>
          (let ds = takeWhile is_digit r
           in if ds \<noteq> [] \<and> strip_prefix '']'' (dropWhile is_digit r) \<noteq> None
              then (case py_int ds of Inl e \<Rightarrow> Inl e | Inr n \<Rightarrow> Inr (Some n))
              else Inr None))"

text \<open>\<open>shape_str.split(',')\<close>, and \<open>int(x)\<close> of each piece.\<close>

fun split_comma :: "string \<Rightarrow> string list" where
  "split_comma [] = [[]]"
| "split_comma (c # cs) =
     (if c = CHR '','' then [] # split_comma cs
      else (case split_comma cs of [] \<Rightarrow> [[c]] | p # ps \<Rightarrow> (c # p) # ps))"

fun parse_shape :: "string list \<Rightarrow> error + nat list" where
  "parse_shape [] = Inr []"
| "parse_shape (x # xs) =
     (case py_int x of
        Inl e \<Rightarrow> Inl e
      | Inr n \<Rightarrow> (case parse_shape xs of Inl e \<Rightarrow> Inl e | Inr ns \<Rightarrow> Inr (n # ns)))"

text \<open>The first group of the array pattern, \<open>(float\d+|int\d+|uint\d+|bool)\<close>: the dtype
  text matched and the rest of the annotation.\<close>

definition match_dtype_digits :: "string \<Rightarrow> string \<Rightarrow> (string \<times> string) option" where
  "match_dtype_digits word a =
     (case strip_prefix word a of
        None \<Rightarrow> None
      | Some r \<Rightarrow>
          (let ds = takeWhile is_digit r
           in if ds \<noteq> [] then Some (word @ ds, dropWhile is_digit r) else None))"

definition match_dtype :: "string \<Rightarrow> (string \<times> string) option" where
  "match_dtype a =
     (case match_dtype_digits ''float'' a of
        Some m \<Rightarrow> Some m
      | None \<Rightarrow>
     (case match_dtype_digits ''int'' a of
        Some m \<Rightarrow> Some m
      | None \<Rightarrow>
     (case match_dtype_digits ''uint'' a of
        Some m \<Rightarrow> Some m
      | None \<Rightarrow>
     (case strip_prefix ''bool'' a of
        Some r \<Rightarrow> Some (''bool'', r)
      | None \<Rightarrow> None))))"

text \<open>\<open>dtype_map.get(dtype_str, np.float64)\<close>: a name that is not in the table gives
  \<open>float64\<close>.\<close>

definition dtype_map_get :: "string \<Rightarrow> dtype" where
  "dtype_map_get s =
     (if s = ''float32'' then Float32
      else if s = ''float64'' then Float64
      else if s = ''int8'' then Int8
      else if s = ''int16'' then Int16
      else if s = ''int32'' then Int32
      else if s = ''int64'' then Int64
      else if s = ''uint8'' then Uint8
      else if s = ''uint16'' then Uint16
      else if s = ''uint32'' then Uint32
      else if s = ''uint64'' then Uint64
      else if s = ''bool'' then Bool8
      else Float64)"

definition is_shape_char :: "char \<Rightarrow> bool" where
  "is_shape_char c \<longleftrightarrow> is_digit c \<or> c = CHR '',''"

text \<open>\<open>parse_array\<close>: \<open>re.match(r'(float\d+|int\d+|uint\d+|bool)\[([\d,]+)\]', annotation)\<close>.\<close>

definition parse_array :: "string \<Rightarrow> error + (dtype \<times> nat list) option" where
  "parse_array a =
     (case match_dtype a of
        None \<Rightarrow> Inr None
      | Some (dtype_str, r) \<Rightarrow>
          (case strip_prefix ''['' r of
             None \<Rightarrow> Inr None
           | Some r2 \<Rightarrow>
               (let shape_str = takeWhile is_shape_char r2
                in if shape_str \<noteq> []
                      \<and> strip_prefix '']'' (dropWhile is_shape_char r2) \<noteq> None
                   then (case parse_shape (split_comma shape_str) of
                           Inl e \<Rightarrow> Inl e
                         | Inr shape \<Rightarrow> Inr (Some (dtype_map_get dtype_str, shape)))
                   else Inr None)))"

text \<open>
  \<open>int(np.prod(shape))\<close> of a tuple of Python integers.  NumPy multiplies in \<open>int64\<close>
  when every dimension is below \<open>2^63\<close>, and the product wraps around; in \<open>uint64\<close> when
  every dimension is below \<open>2^64\<close>; and with Python integers, exactly, otherwise.
\<close>

definition np_prod :: "nat list \<Rightarrow> int" where
  "np_prod shape =
     (if list_all (\<lambda>d. d < 2 ^ 63) shape then sint (of_nat (prod_list shape) :: 64 word)
      else if list_all (\<lambda>d. d < 2 ^ 64) shape then uint (of_nat (prod_list shape) :: 64 word)
      else int (prod_list shape))"

text \<open>
  Class \<open>_FieldInfo\<close>.  The three flags \<open>is_scalar\<close>, \<open>is_string\<close>, \<open>is_array\<close>, of which
  \<open>_parse_type\<close> sets exactly one, and the attributes that go with each are one
  \<open>field_kind\<close>.  Sizes and offsets are Python integers.
\<close>

datatype field_kind =
    Scalar scalar_type
  | String nat
  | Array dtype "nat list"

record field_info =
  fi_name :: string
  fi_kind :: field_kind
  fi_size :: int
  fi_offset :: int

text \<open>\<open>_parse_type\<close>.  The test \<open>self.field_type in type_sizes\<close> hashes the annotation,
  which raises TypeError for an unhashable object.\<close>

definition parse_type :: "annotation \<Rightarrow> error + (field_kind \<times> int)" where
  "parse_type t =
     (let a = annotation_str t in
      case parse_string a of
        Inl e \<Rightarrow> Inl e
      | Inr (Some (Suc n)) \<Rightarrow> Inr (String (Suc n), 4 + int (Suc n) * 4)
      | Inr _ \<Rightarrow>
     (case parse_array a of
        Inl e \<Rightarrow> Inl e
      | Inr (Some (d, shape)) \<Rightarrow> Inr (Array d shape, np_prod shape * int (itemsize d))
      | Inr None \<Rightarrow>
     (case t of
        Type_float \<Rightarrow> Inr (Scalar Scalar_float, 8)
      | Type_int \<Rightarrow> Inr (Scalar Scalar_int, 4)
      | Type_bool \<Rightarrow> Inr (Scalar Scalar_bool, 1)
      | Unhashable _ \<Rightarrow> Inl TypeError
      | _ \<Rightarrow> Inl ValueError)))"

text \<open>Class \<open>_SharedMemoryLayout\<close>: \<open>_analyze_fields\<close> builds one \<open>_FieldInfo\<close> per
  dataclass field, in order, and stops at the first that raises; \<open>_calculate_layout\<close>
  assigns the offsets and the slot size.\<close>

fun analyze_fields :: "(string \<times> annotation) list \<Rightarrow> error + field_info list" where
  "analyze_fields [] = Inr []"
| "analyze_fields ((nm, t) # rest) =
     (case parse_type t of
        Inl e \<Rightarrow> Inl e
      | Inr (k, sz) \<Rightarrow>
          (case analyze_fields rest of
             Inl e \<Rightarrow> Inl e
           | Inr fis \<Rightarrow>
               Inr (\<lparr>fi_name = nm, fi_kind = k, fi_size = sz, fi_offset = 0\<rparr> # fis)))"

fun assign_offsets :: "int \<Rightarrow> field_info list \<Rightarrow> field_info list \<times> int" where
  "assign_offsets offset [] = ([], offset)"
| "assign_offsets offset (fi # fis) =
     (case assign_offsets (offset + fi_size fi) fis of
        (fis', end_offset) \<Rightarrow> (fi\<lparr>fi_offset := offset\<rparr> # fis', end_offset))"

record layout =
  lay_fields :: "field_info list"
  lay_total_size :: int

definition calculate_layout :: "field_info list \<Rightarrow> layout" where
  "calculate_layout fis =
     (let num_fields = int (length fis);
          offset = (8 + num_fields + 7) div 8 * 8
      in case assign_offsets offset fis of
           (fis', end_offset) \<Rightarrow>
             \<lparr>lay_fields = fis', lay_total_size = (end_offset + 8 + 7) div 8 * 8\<rparr>)"

definition shared_memory_layout :: "(string \<times> annotation) list \<Rightarrow> error + layout" where
  "shared_memory_layout dataclass_fields =
     (case analyze_fields dataclass_fields of
        Inl e \<Rightarrow> Inl e
      | Inr fis \<Rightarrow> Inr (calculate_layout fis))"

section \<open>The handle\<close>

text \<open>
  Class \<open>SharedMemory\<close>.  The attributes \<open>is_fifo\<close>, \<open>_slot_size\<close>, \<open>_metadata_offset\<close>
  and \<open>_data_offset\<close> are set once by the constructor from \<open>slots\<close> and the layout, so
  they are functions of the handle here.  The staging buffer \<open>_write_buffer\<close> is a
  dictionary from field names to values.
\<close>

record handle =
  slots :: nat
  layout :: layout
  shm :: segment
  write_buffer :: "string \<rightharpoonup> pyvalue"
  write_buffer_dirty :: bool

definition is_fifo :: "handle \<Rightarrow> bool" where
  "is_fifo h \<longleftrightarrow> slots h > 1"

definition slot_size :: "handle \<Rightarrow> int" where
  "slot_size h = lay_total_size (layout h)"

definition metadata_offset :: "handle \<Rightarrow> int" where
  "metadata_offset h = 0"

definition data_offset :: "handle \<Rightarrow> int" where
  "data_offset h = (if is_fifo h then 24 else 0)"

definition get_slot_offset :: "handle \<Rightarrow> int \<Rightarrow> int" where
  "get_slot_offset h slot_idx = data_offset h + slot_idx * slot_size h"

text \<open>A Python \<open>for\<close> loop whose body can raise: the loop stops at the first exception.\<close>

fun for_each :: "('a \<Rightarrow> 's \<Rightarrow> error + 's) \<Rightarrow> 'a list \<Rightarrow> 's \<Rightarrow> error + 's" where
  "for_each f [] s = Inr s"
| "for_each f (x # xs) s = (case f x s of Inl e \<Rightarrow> Inl e | Inr s' \<Rightarrow> for_each f xs s')"

fun map_err :: "('a \<Rightarrow> error + 'b) \<Rightarrow> 'a list \<Rightarrow> error + 'b list" where
  "map_err f [] = Inr []"
| "map_err f (x # xs) =
     (case f x of
        Inl e \<Rightarrow> Inl e
      | Inr y \<Rightarrow> (case map_err f xs of Inl e \<Rightarrow> Inl e | Inr ys \<Rightarrow> Inr (y # ys)))"

subsection \<open>FIFO metadata\<close>

definition get_fifo_metadata :: "handle \<Rightarrow> int \<times> int \<times> int" where
  "get_fifo_metadata h =
     (if \<not> is_fifo h then (0, 0, 0)
      else (read_uint64 (shm h) (metadata_offset h),
            read_uint64 (shm h) (metadata_offset h + 8),
            read_uint64 (shm h) (metadata_offset h + 16)))"

definition set_fifo_metadata :: "handle \<Rightarrow> int \<Rightarrow> int \<Rightarrow> int \<Rightarrow> error + handle" where
  "set_fifo_metadata h write_idx read_idx count =
     (if \<not> is_fifo h then Inr h
      else
        case write_uint64 (shm h) (metadata_offset h) write_idx of
          Inl e \<Rightarrow> Inl e
        | Inr m1 \<Rightarrow>
        (case write_uint64 m1 (metadata_offset h + 8) read_idx of
          Inl e \<Rightarrow> Inl e
        | Inr m2 \<Rightarrow>
        (case write_uint64 m2 (metadata_offset h + 16) count of
          Inl e \<Rightarrow> Inl e
        | Inr m3 \<Rightarrow> Inr (h\<lparr>shm := m3\<rparr>))))"

subsection \<open>Slot initialisation\<close>

definition initialize_slot :: "handle \<Rightarrow> int \<Rightarrow> error + handle" where
  "initialize_slot h slot_idx =
     (let offset = get_slot_offset h slot_idx;
          num_fields = length (lay_fields (layout h));
          status_offset = offset + 8;
          seq_end_offset = offset + slot_size h - 8
      in case write_uint64 (shm h) offset 0 of
           Inl e \<Rightarrow> Inl e
         | Inr m1 \<Rightarrow>
         (case for_each (\<lambda>i m. buf_set m (status_offset + int i) MASK_UNWRITTEN)
                 [0 ..< num_fields] m1 of
           Inl e \<Rightarrow> Inl e
         | Inr m2 \<Rightarrow>
         (case write_uint64 m2 seq_end_offset 0 of
           Inl e \<Rightarrow> Inl e
         | Inr m3 \<Rightarrow> Inr (h\<lparr>shm := m3\<rparr>))))"

subsection \<open>The codec\<close>

text \<open>
  \<open>_write_scalar\<close>.  For a \<open>float\<close> and an \<open>int\<close> field NumPy makes the view, converts the
  value and stores its bytes; a \<open>bool\<close> field stores the truth value of the source.
\<close>

definition write_scalar ::
  "numpy \<Rightarrow> segment \<Rightarrow> int \<Rightarrow> pyvalue \<Rightarrow> scalar_type \<Rightarrow> error + segment" where
  "write_scalar np m offset v field_type =
     (case field_type of
        Scalar_float \<Rightarrow>
          (case ndarray_view m 1 8 offset of
             Some e \<Rightarrow> Inl e
           | None \<Rightarrow>
               (case np_float64 np v of
                  Inl e \<Rightarrow> Inl e
                | Inr w \<Rightarrow> buf_set_slice m offset (offset + 8) (to_bytes_le 8 (unat w))))
      | Scalar_int \<Rightarrow>
          (case ndarray_view m 1 4 offset of
             Some e \<Rightarrow> Inl e
           | None \<Rightarrow>
               (case np_int32 np v of
                  Inl e \<Rightarrow> Inl e
                | Inr w \<Rightarrow> buf_set_slice m offset (offset + 4) (to_bytes_le 4 (unat w))))
      | Scalar_bool \<Rightarrow>
          (case truth_value np v of
             Inl e \<Rightarrow> Inl e
           | Inr b \<Rightarrow> buf_set m offset (if b then 1 else 0)))"

definition read_scalar :: "segment \<Rightarrow> int \<Rightarrow> scalar_type \<Rightarrow> error + pyvalue" where
  "read_scalar m offset field_type =
     (case field_type of
        Scalar_float \<Rightarrow>
          (case ndarray_view m 1 8 offset of
             Some e \<Rightarrow> Inl e
           | None \<Rightarrow> Inr (PyFloat (of_nat (from_bytes_le (buf_slice m offset (offset + 8))))))
      | Scalar_int \<Rightarrow>
          (case ndarray_view m 1 4 offset of
             Some e \<Rightarrow> Inl e
           | None \<Rightarrow>
               Inr (PyInt (sint (of_nat (from_bytes_le (buf_slice m offset (offset + 4)))
                                  :: 32 word))))
      | Scalar_bool \<Rightarrow>
          (case buf_get m offset of Inl e \<Rightarrow> Inl e | Inr b \<Rightarrow> Inr (PyBool (b \<noteq> 0))))"

text \<open>
  \<open>_write_string\<close> returns whether the value was truncated.  \<open>len\<close> of a number and of
  an array of no dimension raises TypeError; an array of one dimension or more has a
  length and can be sliced, but has no \<open>encode\<close>.
\<close>

definition write_string :: "segment \<Rightarrow> int \<Rightarrow> pyvalue \<Rightarrow> nat \<Rightarrow> error + (bool \<times> segment)" where
  "write_string m offset v string_max_chars =
     (case v of
        PyStr s \<Rightarrow>
          (let truncated = length s > string_max_chars;
               s' = (if truncated then take string_max_chars s else s)
           in case utf8_encode s' of
                Inl e \<Rightarrow> Inl e
              | Inr encoded \<Rightarrow>
              (case write_uint32 m offset (int (length encoded)) of
                Inl e \<Rightarrow> Inl e
              | Inr m1 \<Rightarrow>
              (case buf_set_slice m1 (offset + 4) (offset + 4 + int (length encoded))
                      encoded of
                Inl e \<Rightarrow> Inl e
              | Inr m2 \<Rightarrow> Inr (truncated, m2))))
      | PyArray _ shape _ \<Rightarrow> (if shape = [] then Inl TypeError else Inl AttributeError)
      | _ \<Rightarrow> Inl TypeError)"

definition read_string :: "segment \<Rightarrow> int \<Rightarrow> pyvalue" where
  "read_string m offset =
     (let len = read_uint32 m offset;
          encoded = buf_slice m (offset + 4) (offset + 4 + int len)
      in PyStr (utf8_decode_ignore encoded))"

text \<open>
  \<open>_write_array\<close>.  \<open>np.asarray\<close> converts the source; the flattened value is cut or
  padded with zeros to \<open>expected_size\<close> elements, and the view that receives it is made
  after that.  A negative \<open>expected_size\<close> (a wrapped product) makes the view raise
  ValueError, whatever the slice \<open>flat_value[:expected_size]\<close> was.
\<close>

definition write_array ::
  "numpy \<Rightarrow> segment \<Rightarrow> int \<Rightarrow> pyvalue \<Rightarrow> dtype \<Rightarrow> nat list \<Rightarrow> error + (bool \<times> segment)" where
  "write_array np m offset v array_dtype array_shape =
     (case np_asarray np array_dtype v of
        Inl e \<Rightarrow> Inl e
      | Inr (shape, flat_value) \<Rightarrow>
          (let expected_size = np_prod array_shape;
               truncated = (shape \<noteq> array_shape \<or> int (length flat_value) > expected_size);
               flat = (if int (length flat_value) > expected_size
                       then take (nat expected_size) flat_value
                       else flat_value
                            @ replicate (nat expected_size - length flat_value) 0)
           in case ndarray_view m expected_size (itemsize array_dtype) offset of
                Some e \<Rightarrow> Inl e
              | None \<Rightarrow>
                  (case buf_set_slice m offset
                          (offset + expected_size * int (itemsize array_dtype))
                          (concat (map (to_bytes_le (itemsize array_dtype)) flat)) of
                     Inl e \<Rightarrow> Inl e
                   | Inr m1 \<Rightarrow> Inr (truncated, m1))))"

text \<open>\<open>_read_array\<close>: the view, its copy, and \<open>reshape\<close>, which raises ValueError when the
  shape does not have as many elements as the view (a wrapped product).\<close>

definition read_array :: "segment \<Rightarrow> int \<Rightarrow> dtype \<Rightarrow> nat list \<Rightarrow> error + pyvalue" where
  "read_array m offset array_dtype array_shape =
     (let size = np_prod array_shape;
          e = itemsize array_dtype
      in case ndarray_view m size e offset of
           Some err \<Rightarrow> Inl err
         | None \<Rightarrow>
             if size \<noteq> int (prod_list array_shape) then Inl ValueError
             else Inr (PyArray array_dtype array_shape
                         (map (\<lambda>k. from_bytes_le
                                      (buf_slice m (offset + int k * int e)
                                         (offset + int k * int e + int e)))
                            [0 ..< nat size])))"

subsection \<open>Writing and reading a slot\<close>

text \<open>The body of the loop of \<open>_write_to_slot\<close> for the field at index \<open>idx\<close>.\<close>

definition write_field ::
  "numpy \<Rightarrow> int \<Rightarrow> (string \<rightharpoonup> pyvalue) \<Rightarrow> nat \<times> field_info \<Rightarrow> segment \<Rightarrow> error + segment" where
  "write_field np offset data p m =
     (let idx = int (fst p); field_info = snd p;
          status_offset = offset + 8;
          field_offset = offset + fi_offset field_info
      in case data (fi_name field_info) of
           Some v \<Rightarrow>
             (case (case fi_kind field_info of
                      Scalar t \<Rightarrow>
                        (case write_scalar np m field_offset v t of
                           Inl e \<Rightarrow> Inl e | Inr m1 \<Rightarrow> Inr (False, m1))
                    | String n \<Rightarrow> write_string m field_offset v n
                    | Array d shape \<Rightarrow> write_array np m field_offset v d shape) of
                Inl e \<Rightarrow> Inl e
              | Inr (was_truncated, m1) \<Rightarrow>
                  (case buf_get m1 (status_offset + idx) of
                     Inl e \<Rightarrow> Inl e
                   | Inr status \<Rightarrow>
                       (let status1 = status AND NOT MASK_UNWRITTEN;
                            status2 = status1 OR MASK_MODIFIED;
                            status3 = (if was_truncated then status2 OR MASK_TRUNCATED
                                       else status2 AND NOT MASK_TRUNCATED)
                        in buf_set m1 (status_offset + idx) status3)))
         | None \<Rightarrow>
             (case buf_get m (status_offset + idx) of
                Inl e \<Rightarrow> Inl e
              | Inr status \<Rightarrow> buf_set m (status_offset + idx) (status AND NOT MASK_MODIFIED)))"

definition write_to_slot ::
  "numpy \<Rightarrow> handle \<Rightarrow> int \<Rightarrow> (string \<rightharpoonup> pyvalue) \<Rightarrow> error + handle" where
  "write_to_slot np h slot_idx data =
     (let offset = get_slot_offset h slot_idx;
          seq = read_uint64 (shm h) offset + 1
      in case write_uint64 (shm h) offset seq of
           Inl e \<Rightarrow> Inl e
         | Inr m1 \<Rightarrow>
         (case for_each (write_field np offset data) (enumerate 0 (lay_fields (layout h))) m1 of
           Inl e \<Rightarrow> Inl e
         | Inr m2 \<Rightarrow>
         (case write_uint64 m2 (offset + slot_size h - 8) seq of
           Inl e \<Rightarrow> Inl e
         | Inr m3 \<Rightarrow> Inr (h\<lparr>shm := m3\<rparr>))))"

text \<open>The dataclass instance that \<open>read\<close> returns: the fields in declaration order, each a
  \<open>ValueWithStatus\<close>.\<close>

type_synonym record_data = "(string \<times> value_with_status) list"

definition read_field ::
  "segment \<Rightarrow> int \<Rightarrow> nat \<times> field_info \<Rightarrow> error + (string \<times> value_with_status)" where
  "read_field m offset p =
     (let idx = int (fst p); field_info = snd p;
          status_offset = offset + 8;
          field_offset = offset + fi_offset field_info
      in case buf_get m (status_offset + idx) of
           Inl e \<Rightarrow> Inl e
         | Inr status_byte \<Rightarrow>
             (case (case fi_kind field_info of
                      Scalar t \<Rightarrow> read_scalar m field_offset t
                    | String n \<Rightarrow> Inr (read_string m field_offset)
                    | Array d shape \<Rightarrow> read_array m field_offset d shape) of
                Inl e \<Rightarrow> Inl e
              | Inr v \<Rightarrow>
                  Inr (fi_name field_info, \<lparr>vws_value = v, vws_status = status_byte\<rparr>)))"

definition read_from_slot ::
  "handle \<Rightarrow> int \<Rightarrow> bool \<Rightarrow> error + (record_data option \<times> handle)" where
  "read_from_slot h slot_idx reset_modified =
     (let offset = get_slot_offset h slot_idx;
          seq_begin = read_uint64 (shm h) offset;
          status_offset = offset + 8
      in case map_err (read_field (shm h) offset) (enumerate 0 (lay_fields (layout h))) of
           Inl e \<Rightarrow> Inl e
         | Inr field_values \<Rightarrow>
             (let seq_end = read_uint64 (shm h) (offset + slot_size h - 8)
              in if seq_begin \<noteq> seq_end then Inr (None, h)
                 else if reset_modified then
                   (case for_each
                           (\<lambda>idx m.
                              case buf_get m (status_offset + int idx) of
                                Inl e \<Rightarrow> Inl e
                              | Inr status_byte \<Rightarrow>
                                  buf_set m (status_offset + int idx)
                                    (status_byte AND NOT MASK_MODIFIED))
                           [0 ..< length (lay_fields (layout h))] (shm h) of
                      Inl e \<Rightarrow> Inl e
                    | Inr m1 \<Rightarrow> Inr (Some field_values, h\<lparr>shm := m1\<rparr>))
                 else Inr (Some field_values, h)))"

section \<open>The public operations\<close>

text \<open>
  The constructor with \<open>create=True\<close>.  The operating system hands out a zero-filled
  segment of the size asked for, and \<open>SharedMemory\<close> raises ValueError for a size that is
  not positive; other failures of the operating system are not modelled.
\<close>

definition shared_memory :: "(string \<times> annotation) list \<Rightarrow> int \<Rightarrow> error + handle" where
  "shared_memory dataclass_fields n =
     (if n < 1 then Inl ValueError
      else
        case shared_memory_layout dataclass_fields of
          Inl e \<Rightarrow> Inl e
        | Inr lay \<Rightarrow>
            (let h0 = \<lparr>slots = nat n, layout = lay,
                       shm = \<lparr>shm_size = 0, shm_buf = (\<lambda>_. 0)\<rparr>,
                       write_buffer = Map.empty, write_buffer_dirty = False\<rparr>;
                 metadata_size = (if is_fifo h0 then 24 else 0);
                 total_size = metadata_size + slot_size h0 * n
             in if total_size \<le> 0 then Inl ValueError
                else
                  (let h1 = h0\<lparr>shm := \<lparr>shm_size = nat total_size, shm_buf = (\<lambda>_. 0)\<rparr>\<rparr>
                   in case set_fifo_metadata h1 0 0 0 of
                        Inl e \<Rightarrow> Inl e
                      | Inr h2 \<Rightarrow>
                          for_each (\<lambda>slot_idx h. initialize_slot h (int slot_idx))
                            [0 ..< nat n] h2)))"

text \<open>The methods \<open>write\<close> and \<open>read\<close> are \<open>shm_write\<close> and \<open>shm_read\<close> here.\<close>

definition shm_write :: "numpy \<Rightarrow> handle \<Rightarrow> (string \<rightharpoonup> pyvalue) \<Rightarrow> error + handle" where
  "shm_write np h kwargs =
     (if is_fifo h
      then Inr (h\<lparr>write_buffer := write_buffer h ++ kwargs, write_buffer_dirty := True\<rparr>)
      else write_to_slot np h 0 kwargs)"

definition finalize :: "numpy \<Rightarrow> handle \<Rightarrow> error + handle" where
  "finalize np h =
     (if \<not> is_fifo h then Inl RuntimeError
      else if \<not> write_buffer_dirty h then Inr h
      else
        case get_fifo_metadata h of
          (write_idx, read_idx, count) \<Rightarrow>
            (let slot_idx = write_idx mod int (slots h)
             in case write_to_slot np h slot_idx (write_buffer h) of
                  Inl e \<Rightarrow> Inl e
                | Inr h1 \<Rightarrow>
                    (let write_idx' = write_idx + 1;
                         count' = (if count < int (slots h) then count + 1 else count);
                         read_idx' = (if count < int (slots h) then read_idx else read_idx + 1)
                     in case set_fifo_metadata h1 write_idx' read_idx' count' of
                          Inl e \<Rightarrow> Inl e
                        | Inr h2 \<Rightarrow>
                            Inr (h2\<lparr>write_buffer := Map.empty,
                                    write_buffer_dirty := False\<rparr>))))"

text \<open>
  \<open>read\<close> is modelled for \<open>timeout=0\<close>, the non-blocking call: the polling loops of
  \<open>_read_single\<close> and \<open>_read_fifo\<close> then give up as soon as there is no data.  In
  \<open>_read_fifo\<close> a torn slot is retried whatever the timeout; with no concurrent writer
  the retry sees the same bytes again, so the loop may not end.  One pass of that loop is
  \<open>read_fifo_attempt\<close>, and \<open>read_fifo\<close> returns \<open>None\<close> when the loop runs on forever.
\<close>

definition read_single :: "handle \<Rightarrow> bool \<Rightarrow> error + (record_data option \<times> handle)" where
  "read_single h reset_modified = read_from_slot h 0 reset_modified"

datatype attempt = Retry | Return "record_data option \<times> handle"

definition read_fifo_attempt :: "handle \<Rightarrow> bool \<Rightarrow> error + attempt" where
  "read_fifo_attempt h latest =
     (case get_fifo_metadata h of
        (write_idx, read_idx0, count0) \<Rightarrow>
          if count0 = 0 then Inr (Return (None, h))
          else
            (let read_idx = (if latest \<and> count0 > 1 then write_idx - 1 else read_idx0);
                 count = (if latest \<and> count0 > 1 then 1 else count0);
                 slot_idx = read_idx mod int (slots h)
             in case read_from_slot h slot_idx False of
                  Inl e \<Rightarrow> Inl e
                | Inr (None, _) \<Rightarrow> Inr Retry
                | Inr (Some data, h1) \<Rightarrow>
                    (case set_fifo_metadata h1 write_idx (read_idx + 1) (count - 1) of
                       Inl e \<Rightarrow> Inl e
                     | Inr h2 \<Rightarrow> Inr (Return (Some data, h2)))))"

partial_function (option) read_fifo ::
  "handle \<Rightarrow> bool \<Rightarrow> (error + (record_data option \<times> handle)) option" where
  "read_fifo h latest =
     (case read_fifo_attempt h latest of
        Inl e \<Rightarrow> Some (Inl e)
      | Inr Retry \<Rightarrow> read_fifo h latest
      | Inr (Return r) \<Rightarrow> Some (Inr r))"

definition shm_read ::
  "handle \<Rightarrow> bool \<Rightarrow> bool \<Rightarrow> (error + (record_data option \<times> handle)) option" where
  "shm_read h latest reset_modified =
     (if reset_modified \<and> is_fifo h then Some (Inl ValueError)
      else if is_fifo h then read_fifo h latest
      else Some (read_single h reset_modified))"

section \<open>What the specification says of the string decoder\<close>

text \<open>
  The specification describes a decoder that puts the replacement character U+FFFD in the
  place of every ill-formed sequence.  \<open>spec_utf8_decode_replace\<close> follows those words: it
  is the decoder above, except that a step that emits nothing emits U+FFFD.
\<close>

fun spec_utf8_decode_replace_nat :: "nat list \<Rightarrow> pystr" where
  "spec_utf8_decode_replace_nat [] = []"
| "spec_utf8_decode_replace_nat (ch # s) =
     (case utf8_step ch s of
        (out, k) \<Rightarrow>
          (if out = [] then [0xFFFD] else out) @ spec_utf8_decode_replace_nat (drop k s))"

definition spec_utf8_decode_replace :: "byte list \<Rightarrow> pystr" where
  "spec_utf8_decode_replace bs = spec_utf8_decode_replace_nat (map unat bs)"

definition spec_read_string :: "segment \<Rightarrow> int \<Rightarrow> pyvalue" where
  "spec_read_string m offset =
     (let len = read_uint32 m offset;
          encoded = buf_slice m (offset + 4) (offset + 4 + int len)
      in PyStr (spec_utf8_decode_replace encoded))"

text \<open>
  Decoding with the invalid bytes dropped, stated with the encoder alone.  At each byte
  either the encoding of a code point starts, and the code point is the next one of the
  string; or no encoding of any code point starts there, and the byte is dropped with
  nothing in its place.
\<close>

inductive decodes_to :: "byte list \<Rightarrow> pystr \<Rightarrow> bool" where
  decodes_Nil: "decodes_to [] []"
| decodes_valid:
    "utf8_encode_cp c = Inr e \<Longrightarrow> decodes_to rest s \<Longrightarrow> decodes_to (e @ rest) (c # s)"
| decodes_skip:
    "\<forall>c n. utf8_encode_cp c \<noteq> Inr (take n (b # rest)) \<Longrightarrow> decodes_to rest s
     \<Longrightarrow> decodes_to (b # rest) s"

text \<open>
  The length that the four bytes at \<open>offset\<close> spell out in little-endian order, and the
  payload: the bytes after them, as many as that length says and the buffer has.
\<close>

definition stored_length :: "segment \<Rightarrow> int \<Rightarrow> nat" where
  "stored_length m offset =
     unat (shm_buf m offset) + 256 * unat (shm_buf m (offset + 1))
     + 65536 * unat (shm_buf m (offset + 2)) + 16777216 * unat (shm_buf m (offset + 3))"

definition stored_payload :: "segment \<Rightarrow> int \<Rightarrow> byte list" where
  "stored_payload m offset =
     map (shm_buf m)
       [offset + 4 .. min (offset + 4 + int (stored_length m offset)) (int (shm_size m)) - 1]"

text \<open>A string field at offset 0 whose stored length is 1 and whose payload is the single
  byte \<open>FF\<close>, which starts no UTF-8 sequence.\<close>

definition invalid_utf8_segment :: segment where
  "invalid_utf8_segment =
     \<lparr>shm_size = 8, shm_buf = (\<lambda>i. if i = 0 then 1 else if i = 4 then 0xFF else 0)\<rparr>"

text \<open>A string field at offset 0 with stored length 5 and payload \<open>61 C3 E2 82 62\<close>: the
  letter a, a lead byte with nothing after it, a three-byte sequence cut after two bytes,
  and the letter b.\<close>

definition mixed_utf8_segment :: segment where
  "mixed_utf8_segment =
     \<lparr>shm_size = 12,
      shm_buf = (\<lambda>i. if i = 0 then 5 else if i = 4 then 0x61 else if i = 5 then 0xC3
                     else if i = 6 then 0xE2 else if i = 7 then 0x82
                     else if i = 8 then 0x62 else 0)\<rparr>"

section \<open>Declarations the layout compiler is said to refuse\<close>







section \<open>Properties of the UTF-8 codec\<close>

lemma unat_of_nat_byte: "n < 256 \<Longrightarrow> unat (of_nat n :: byte) = n"
  by (simp add: unat_of_nat)

lemma unat_byte_less: "unat (b :: byte) < 256"
  using unsigned_less[of b] by simp

lemma utf8_step_1: "a < 0x80 \<Longrightarrow> utf8_step a r = ([a], 0)"
  by (simp add: utf8_step_def)

lemma utf8_step_2:
  "0xC2 \<le> a \<Longrightarrow> a < 0xE0 \<Longrightarrow> is_continuation_byte b \<Longrightarrow>
   utf8_step a (b # r) = ([(a - 0xC0) * 64 + (b - 0x80)], 1)"
  by (simp add: utf8_step_def)

lemma utf8_step_3:
  "0xE0 \<le> a \<Longrightarrow> a < 0xF0 \<Longrightarrow> is_continuation_byte b \<Longrightarrow> is_continuation_byte c \<Longrightarrow>
   \<not> (a = 0xE0 \<and> b < 0xA0) \<Longrightarrow> \<not> (a = 0xED \<and> b \<ge> 0xA0) \<Longrightarrow>
   utf8_step a (b # c # r) = ([(a - 0xE0) * 4096 + (b - 0x80) * 64 + (c - 0x80)], 2)"
  by (simp add: utf8_step_def)

lemma utf8_step_4:
  "0xF0 \<le> a \<Longrightarrow> a < 0xF5 \<Longrightarrow> is_continuation_byte b \<Longrightarrow> is_continuation_byte c \<Longrightarrow>
   is_continuation_byte d \<Longrightarrow>
   \<not> (a = 0xF0 \<and> b < 0x90) \<Longrightarrow> \<not> (a = 0xF4 \<and> b \<ge> 0x90) \<Longrightarrow>
   utf8_step a (b # c # d # r) =
     ([(a - 0xF0) * 262144 + (b - 0x80) * 4096 + (c - 0x80) * 64 + (d - 0x80)], 3)"
  by (simp add: utf8_step_def)

lemma utf8_step_invalid_start:
  "0x80 \<le> a \<Longrightarrow> a < 0xC2 \<or> 0xF5 \<le> a \<Longrightarrow> utf8_step a r = ([], 0)"
  by (auto simp: utf8_step_def)

text \<open>The digits of a code point in base 64, as linear facts.\<close>

lemma base64_digits3:
  fixes c :: nat
  obtains q r1 r0 where "c div 4096 = q" "c div 64 mod 64 = r1" "c mod 64 = r0"
    "c = q * 4096 + r1 * 64 + r0" "r1 < 64" "r0 < 64"
proof -
  define q1 where "q1 = c div 64"
  define r0 where "r0 = c mod 64"
  define q where "q = q1 div 64"
  define r1 where "r1 = q1 mod 64"
  have 1: "c = q1 * 64 + r0" by (simp add: q1_def r0_def)
  have 2: "q1 = q * 64 + r1" by (simp add: q_def r1_def)
  have 3: "c div 4096 = q" by (simp add: q_def q1_def div_mult2_eq)
  have 4: "c = q * 4096 + r1 * 64 + r0" unfolding 1 2 by simp
  have 5: "r1 < 64" "r0 < 64" by (simp_all add: r1_def r0_def)
  show ?thesis
    using that[OF 3 _ _ 4 5] by (simp add: r1_def q1_def r0_def)
qed

lemma base64_digits4:
  fixes c :: nat
  obtains q r2 r1 r0 where "c div 262144 = q" "c div 4096 mod 64 = r2"
    "c div 64 mod 64 = r1" "c mod 64 = r0"
    "c = q * 262144 + r2 * 4096 + r1 * 64 + r0" "r2 < 64" "r1 < 64" "r0 < 64"
proof -
  define q1 where "q1 = c div 64"
  define r0 where "r0 = c mod 64"
  define q2 where "q2 = q1 div 64"
  define r1 where "r1 = q1 mod 64"
  define q where "q = q2 div 64"
  define r2 where "r2 = q2 mod 64"
  have 1: "c = q1 * 64 + r0" by (simp add: q1_def r0_def)
  have 2: "q1 = q2 * 64 + r1" by (simp add: q2_def r1_def)
  have e2: "q2 = q * 64 + r2" by (simp add: q_def r2_def)
  have 3: "c div 4096 = q2" by (simp add: q2_def q1_def div_mult2_eq)
  have e3: "c div 262144 = q" by (simp add: q_def q2_def q1_def div_mult2_eq)
  have 4: "c = q * 262144 + r2 * 4096 + r1 * 64 + r0" unfolding 1 2 e2 by simp
  have 5: "r2 < 64" "r1 < 64" "r0 < 64" by (simp_all add: r2_def r1_def r0_def)
  have 6: "c div 4096 mod 64 = r2" unfolding 3 r2_def ..
  show ?thesis
    using that[OF e3 6 _ _ 4 5] by (simp add: r1_def q1_def r0_def)
qed

text \<open>The decoder takes the encoding of a code point in one step, whatever follows it.\<close>

lemma utf8_step_encode_cp:
  assumes "utf8_encode_cp c = Inr bs"
  obtains a as where "map unat bs = a # as"
    and "\<And>rest. utf8_step a (as @ rest) = ([c], length as)"
proof -
  consider (a) "c < 0x80" | (b) "0x80 \<le> c" "c < 0x800"
    | (c) "0x800 \<le> c" "c < 0x10000" "\<not> (0xD800 \<le> c \<and> c < 0xE000)"
    | (d) "0x10000 \<le> c" "c < 0x110000"
    | (e) "0xD800 \<le> c \<and> c < 0xE000" | (f) "0x110000 \<le> c"
    by linarith
  then show ?thesis
  proof cases
    case a
    then have "bs = [of_nat c]" using assms by (auto simp: utf8_encode_cp_def)
    moreover have "unat (of_nat c :: byte) = c" using a by (intro unat_of_nat_byte) simp
    ultimately have "map unat bs = c # []" by simp
    then show ?thesis using that[of c "[]"] a by (simp add: utf8_step_1)
  next
    case b
    define q where "q = c div 64"
    define r0 where "r0 = c mod 64"
    have c: "c = q * 64 + r0" "r0 < 64" by (simp_all add: q_def r0_def)
    define a1 where "a1 = 0xC0 + q"
    define a2 where "a2 = 0x80 + r0"
    have bs: "bs = [of_nat a1, of_nat a2]"
      using assms b unfolding a1_def a2_def q_def r0_def by (auto simp: utf8_encode_cp_def)
    have r: "0xC2 \<le> a1" "a1 < 0xE0" "0x80 \<le> a2" "a2 < 0xC0"
      using b c by (simp_all add: a1_def a2_def)
    have u: "unat (of_nat a1 :: byte) = a1" "unat (of_nat a2 :: byte) = a2"
      using r by (auto intro!: unat_of_nat_byte)
    have v: "(a1 - 0xC0) * 64 + (a2 - 0x80) = c" unfolding a1_def a2_def using c by simp
    have k: "is_continuation_byte a2" using r by (simp add: is_continuation_byte_def)
    have m: "map unat bs = a1 # [a2]" unfolding bs using u by (simp only: list.map)
    show ?thesis
      using that[OF m] utf8_step_2[OF r(1) r(2) k] v by simp
  next
    case c
    obtain q r1 r0 where dg: "c div 4096 = q" "c div 64 mod 64 = r1" "c mod 64 = r0"
      and ceq: "c = q * 4096 + r1 * 64 + r0" and rb: "r1 < 64" "r0 < 64"
      by (rule base64_digits3)
    define a1 where "a1 = 0xE0 + q"
    define a2 where "a2 = 0x80 + r1"
    define a3 where "a3 = 0x80 + r0"
    have bs: "bs = [of_nat a1, of_nat a2, of_nat a3]"
      using assms c unfolding a1_def a2_def a3_def dg[symmetric]
      by (auto simp: utf8_encode_cp_def)
    have r: "0xE0 \<le> a1" "a1 < 0xF0" "0x80 \<le> a2" "a2 < 0xC0" "0x80 \<le> a3" "a3 < 0xC0"
      using c ceq rb by (simp_all add: a1_def a2_def a3_def)
    have u: "unat (of_nat a1 :: byte) = a1" "unat (of_nat a2 :: byte) = a2"
      "unat (of_nat a3 :: byte) = a3"
      using r by (auto intro!: unat_of_nat_byte)
    have v: "(a1 - 0xE0) * 4096 + (a2 - 0x80) * 64 + (a3 - 0x80) = c"
      unfolding a1_def a2_def a3_def using ceq by simp
    have w: "\<not> (a1 = 0xE0 \<and> a2 < 0xA0)" "\<not> (a1 = 0xED \<and> a2 \<ge> 0xA0)"
      using c ceq rb unfolding a1_def a2_def by auto
    have k: "is_continuation_byte a2" "is_continuation_byte a3"
      using r by (simp_all add: is_continuation_byte_def)
    have m: "map unat bs = a1 # [a2, a3]" unfolding bs using u by (simp only: list.map)
    show ?thesis
      using that[OF m] utf8_step_3[OF r(1) r(2) k w] v by simp
  next
    case d
    obtain q r2 r1 r0 where dg: "c div 262144 = q" "c div 4096 mod 64 = r2"
      "c div 64 mod 64 = r1" "c mod 64 = r0"
      and ceq: "c = q * 262144 + r2 * 4096 + r1 * 64 + r0" and rb: "r2 < 64" "r1 < 64" "r0 < 64"
      by (rule base64_digits4)
    define a1 where "a1 = 0xF0 + q"
    define a2 where "a2 = 0x80 + r2"
    define a3 where "a3 = 0x80 + r1"
    define a4 where "a4 = 0x80 + r0"
    have bs: "bs = [of_nat a1, of_nat a2, of_nat a3, of_nat a4]"
      using assms d unfolding a1_def a2_def a3_def a4_def dg[symmetric]
      by (auto simp: utf8_encode_cp_def)
    have r: "0xF0 \<le> a1" "a1 < 0xF5" "0x80 \<le> a2" "a2 < 0xC0" "0x80 \<le> a3" "a3 < 0xC0"
      "0x80 \<le> a4" "a4 < 0xC0"
      using d ceq rb by (simp_all add: a1_def a2_def a3_def a4_def)
    have u: "unat (of_nat a1 :: byte) = a1" "unat (of_nat a2 :: byte) = a2"
      "unat (of_nat a3 :: byte) = a3" "unat (of_nat a4 :: byte) = a4"
      using r by (auto intro!: unat_of_nat_byte)
    have v: "(a1 - 0xF0) * 262144 + (a2 - 0x80) * 4096 + (a3 - 0x80) * 64 + (a4 - 0x80) = c"
      unfolding a1_def a2_def a3_def a4_def using ceq by simp
    have w: "\<not> (a1 = 0xF0 \<and> a2 < 0x90)" "\<not> (a1 = 0xF4 \<and> a2 \<ge> 0x90)"
      using d ceq rb unfolding a1_def a2_def by auto
    have k: "is_continuation_byte a2" "is_continuation_byte a3" "is_continuation_byte a4"
      using r by (simp_all add: is_continuation_byte_def)
    have m: "map unat bs = a1 # [a2, a3, a4]"
      unfolding bs using u by (simp only: list.map)
    show ?thesis
      using that[OF m] utf8_step_4[OF r(1) r(2) k w] v by simp
  next
    case e
    with assms show ?thesis by (auto simp: utf8_encode_cp_def)
  next
    case f
    with assms show ?thesis by (auto simp: utf8_encode_cp_def)
  qed
qed

lemma utf8_decode_nat_encode_cp:
  assumes "utf8_encode_cp c = Inr bs"
  shows "utf8_decode_nat (map unat bs @ rest) = c # utf8_decode_nat rest"
proof -
  obtain a as where m: "map unat bs = a # as"
    and s: "\<And>rest. utf8_step a (as @ rest) = ([c], length as)"
    using utf8_step_encode_cp[OF assms] by blast
  show ?thesis by (simp add: m s)
qed

lemma utf8_decode_nat_encode:
  "utf8_encode s = Inr bs \<Longrightarrow> utf8_decode_nat (map unat bs @ rest) = s @ utf8_decode_nat rest"
proof (induction s arbitrary: bs)
  case Nil
  then show ?case by simp
next
  case (Cons c cs)
  then obtain b1 b2 where 1: "utf8_encode_cp c = Inr b1" and 2: "utf8_encode cs = Inr b2"
    and bs: "bs = b1 @ b2"
    by (auto split: sum.splits)
  show ?case
    using utf8_decode_nat_encode_cp[OF 1, of "map unat b2 @ rest"] Cons.IH[OF 2]
    by (simp add: bs)
qed

lemma utf8_decode_ignore_encode:
  "utf8_encode s = Inr bs \<Longrightarrow> utf8_decode_ignore bs = s"
  using utf8_decode_nat_encode[of s bs "[]"] by (simp add: utf8_decode_ignore_def)

lemma utf8_encode_length_le: "utf8_encode s = Inr bs \<Longrightarrow> length bs \<le> 4 * length s"
proof (induction s arbitrary: bs)
  case Nil
  then show ?case by simp
next
  case (Cons c cs)
  then obtain b1 b2 where 1: "utf8_encode_cp c = Inr b1" and 2: "utf8_encode cs = Inr b2"
    and bs: "bs = b1 @ b2"
    by (auto split: sum.splits)
  have "length b1 \<le> 4" using 1 by (auto simp: utf8_encode_cp_def split: if_splits)
  then show ?case using Cons.IH[OF 2] by (simp add: bs)
qed

text \<open>The code point that a step emits is the one whose encoding the step has consumed.\<close>

lemma base64_value2:
  fixes q r0 :: nat
  assumes "r0 < 64"
  shows "(q * 64 + r0) div 64 = q" "(q * 64 + r0) mod 64 = r0"
  using assms by simp_all

lemma base64_value3:
  fixes q r1 r0 :: nat
  assumes "r1 < 64" "r0 < 64"
  shows "(q * 4096 + r1 * 64 + r0) div 4096 = q"
    "(q * 4096 + r1 * 64 + r0) div 64 mod 64 = r1"
    "(q * 4096 + r1 * 64 + r0) mod 64 = r0"
proof -
  have e: "q * 4096 + r1 * 64 + r0 = (q * 64 + r1) * 64 + r0" by simp
  have d: "(q * 4096 + r1 * 64 + r0) div 64 = q * 64 + r1"
    unfolding e by (rule base64_value2(1)[OF assms(2)])
  show "(q * 4096 + r1 * 64 + r0) mod 64 = r0"
    unfolding e by (rule base64_value2(2)[OF assms(2)])
  show "(q * 4096 + r1 * 64 + r0) div 64 mod 64 = r1" unfolding d using assms by simp
  have "(q * 4096 + r1 * 64 + r0) div 4096 = (q * 4096 + r1 * 64 + r0) div 64 div 64"
    by (simp add: div_mult2_eq)
  then show "(q * 4096 + r1 * 64 + r0) div 4096 = q" unfolding d using assms by simp
qed

lemma base64_value4:
  fixes q r2 r1 r0 :: nat
  assumes "r2 < 64" "r1 < 64" "r0 < 64"
  shows "(q * 262144 + r2 * 4096 + r1 * 64 + r0) div 262144 = q"
    "(q * 262144 + r2 * 4096 + r1 * 64 + r0) div 4096 mod 64 = r2"
    "(q * 262144 + r2 * 4096 + r1 * 64 + r0) div 64 mod 64 = r1"
    "(q * 262144 + r2 * 4096 + r1 * 64 + r0) mod 64 = r0"
proof -
  have e: "q * 262144 + r2 * 4096 + r1 * 64 + r0 = (q * 64 + r2) * 4096 + r1 * 64 + r0"
    by simp
  show "(q * 262144 + r2 * 4096 + r1 * 64 + r0) div 64 mod 64 = r1"
    unfolding e by (rule base64_value3(2)[OF assms(2,3)])
  show "(q * 262144 + r2 * 4096 + r1 * 64 + r0) mod 64 = r0"
    unfolding e by (rule base64_value3(3)[OF assms(2,3)])
  have d: "(q * 262144 + r2 * 4096 + r1 * 64 + r0) div 4096 = q * 64 + r2"
    unfolding e by (rule base64_value3(1)[OF assms(2,3)])
  show "(q * 262144 + r2 * 4096 + r1 * 64 + r0) div 4096 mod 64 = r2"
    unfolding d using assms by simp
  have "(q * 262144 + r2 * 4096 + r1 * 64 + r0) div 262144
          = (q * 262144 + r2 * 4096 + r1 * 64 + r0) div 4096 div 64"
    by (simp add: div_mult2_eq)
  then show "(q * 262144 + r2 * 4096 + r1 * 64 + r0) div 262144 = q"
    unfolding d using assms by simp
qed

lemma utf8_encode_cp_2:
  assumes "0xC2 \<le> a" "a < 0xE0" "is_continuation_byte b"
  shows "utf8_encode_cp ((a - 0xC0) * 64 + (b - 0x80)) = Inr [of_nat a, of_nat b]"
proof -
  define q where "q = a - 0xC0"
  define r0 where "r0 = b - 0x80"
  have a: "a = 0xC0 + q" and b: "b = 0x80 + r0"
    using assms by (simp_all add: q_def r0_def is_continuation_byte_def)
  have r: "2 \<le> q" "q < 32" "r0 < 64"
    using assms by (auto simp: q_def r0_def is_continuation_byte_def)
  define c where "c = q * 64 + r0"
  have d: "c div 64 = q" "c mod 64 = r0"
    unfolding c_def using base64_value2[OF r(3)] by simp_all
  have rng: "\<not> c < 0x80" "c < 0x800" unfolding c_def using r by simp_all
  have "utf8_encode_cp c = Inr [of_nat a, of_nat b]"
    unfolding utf8_encode_cp_def a b using rng d by simp
  then show ?thesis unfolding c_def q_def r0_def .
qed

lemma utf8_encode_cp_3:
  assumes "0xE0 \<le> a" "a < 0xF0" "is_continuation_byte b" "is_continuation_byte b'"
    and "\<not> (a = 0xE0 \<and> b < 0xA0)" "\<not> (a = 0xED \<and> b \<ge> 0xA0)"
  shows "utf8_encode_cp ((a - 0xE0) * 4096 + (b - 0x80) * 64 + (b' - 0x80))
           = Inr [of_nat a, of_nat b, of_nat b']"
proof -
  define q where "q = a - 0xE0"
  define r1 where "r1 = b - 0x80"
  define r0 where "r0 = b' - 0x80"
  have a: "a = 0xE0 + q" and b: "b = 0x80 + r1" and b': "b' = 0x80 + r0"
    using assms by (simp_all add: q_def r1_def r0_def is_continuation_byte_def)
  have r: "q < 16" "r1 < 64" "r0 < 64"
    using assms by (auto simp: q_def r1_def r0_def is_continuation_byte_def)
  have s: "q = 0 \<longrightarrow> 32 \<le> r1" "q = 13 \<longrightarrow> r1 < 32"
    using assms(5,6) unfolding a b by auto
  define c where "c = q * 4096 + r1 * 64 + r0"
  have d: "c div 4096 = q" "c div 64 mod 64 = r1" "c mod 64 = r0"
    unfolding c_def using base64_value3[OF r(2,3)] by simp_all
  have lo: "\<not> c < 0x800"
  proof (cases "q = 0")
    case True then show ?thesis using s(1) unfolding c_def by simp
  next
    case False then show ?thesis unfolding c_def by simp
  qed
  have sur: "\<not> (0xD800 \<le> c \<and> c < 0xE000)"
  proof -
    consider "q < 13" | "q = 13" | "14 \<le> q" by linarith
    then show ?thesis
    proof cases
      case 1 then show ?thesis unfolding c_def using r by simp
    next
      case 2 then show ?thesis unfolding c_def using r s(2) by simp
    next
      case 3 then show ?thesis unfolding c_def by simp
    qed
  qed
  have hi: "c < 0x10000" unfolding c_def using r by simp
  have lo': "\<not> c < 0x80" using lo by simp
  have "utf8_encode_cp c = Inr [of_nat a, of_nat b, of_nat b']"
    unfolding utf8_encode_cp_def a b b' using lo lo' sur hi d by simp
  then show ?thesis unfolding c_def q_def r1_def r0_def .
qed

lemma utf8_encode_cp_4:
  assumes "0xF0 \<le> a" "a < 0xF5" "is_continuation_byte b" "is_continuation_byte b'"
    "is_continuation_byte b''"
    and "\<not> (a = 0xF0 \<and> b < 0x90)" "\<not> (a = 0xF4 \<and> b \<ge> 0x90)"
  shows "utf8_encode_cp ((a - 0xF0) * 262144 + (b - 0x80) * 4096 + (b' - 0x80) * 64
                          + (b'' - 0x80))
           = Inr [of_nat a, of_nat b, of_nat b', of_nat b'']"
proof -
  define q where "q = a - 0xF0"
  define r2 where "r2 = b - 0x80"
  define r1 where "r1 = b' - 0x80"
  define r0 where "r0 = b'' - 0x80"
  have a: "a = 0xF0 + q" and b: "b = 0x80 + r2" and b': "b' = 0x80 + r1"
    and b'': "b'' = 0x80 + r0"
    using assms by (simp_all add: q_def r2_def r1_def r0_def is_continuation_byte_def)
  have r: "q < 5" "r2 < 64" "r1 < 64" "r0 < 64"
    using assms by (auto simp: q_def r2_def r1_def r0_def is_continuation_byte_def)
  have s: "q = 0 \<longrightarrow> 16 \<le> r2" "q = 4 \<longrightarrow> r2 < 16"
    using assms(6,7) unfolding a b by auto
  define c where "c = q * 262144 + r2 * 4096 + r1 * 64 + r0"
  have d: "c div 262144 = q" "c div 4096 mod 64 = r2" "c div 64 mod 64 = r1" "c mod 64 = r0"
    unfolding c_def using base64_value4[OF r(2,3,4)] by simp_all
  have lo: "\<not> c < 0x10000"
  proof (cases "q = 0")
    case True then show ?thesis using s(1) unfolding c_def by simp
  next
    case False then show ?thesis unfolding c_def by simp
  qed
  have hi: "c < 0x110000"
  proof (cases "q = 4")
    case True then show ?thesis using s(2) r unfolding c_def by simp
  next
    case False then have "q \<le> 3" using r by simp
    then show ?thesis using r unfolding c_def by simp
  qed
  have lo': "\<not> c < 0x80" "\<not> c < 0x800" "\<not> (0xD800 \<le> c \<and> c < 0xE000)" using lo by simp_all
  have "utf8_encode_cp c = Inr [of_nat a, of_nat b, of_nat b', of_nat b'']"
    unfolding utf8_encode_cp_def a b b' b'' using lo lo' hi d by simp
  then show ?thesis unfolding c_def q_def r2_def r1_def r0_def .
qed

lemma utf8_step_emits:
  assumes "utf8_step a s = ([c], k)"
  shows "k \<le> length s \<and> utf8_encode_cp c = Inr (map of_nat (a # take k s))"
proof -
  consider (a) "a < 0x80" | (b) "0x80 \<le> a" "a < 0xC2" | (c) "0xC2 \<le> a" "a < 0xE0"
    | (d) "0xE0 \<le> a" "a < 0xF0" | (e) "0xF0 \<le> a" "a < 0xF5" | (f) "0xF5 \<le> a"
    by linarith
  then show ?thesis
  proof cases
    case a
    then show ?thesis using assms by (simp add: utf8_step_def utf8_encode_cp_def)
  next
    case b
    then show ?thesis using assms by (simp add: utf8_step_def)
  next
    case c
    show ?thesis
    proof (cases s)
      case Nil
      then show ?thesis using assms c by (simp add: utf8_step_def)
    next
      case (Cons b r)
      then have k: "is_continuation_byte b" "c = (a - 0xC0) * 64 + (b - 0x80)" "k = 1"
        using assms c by (simp_all add: utf8_step_def split: if_splits)
      show ?thesis using utf8_encode_cp_2[OF c k(1)] k(2,3) Cons by simp
    qed
  next
    case d
    have n: "\<not> a < 0x80" "\<not> a < 0xC2" "\<not> a < 0xE0" using d by simp_all
    from assms obtain b b' r where s: "s = b # b' # r"
      unfolding utf8_step_def using n d
      by (auto split: list.splits if_splits)
    have k: "is_continuation_byte b" "is_continuation_byte b'"
      "\<not> (a = 0xE0 \<and> b < 0xA0)" "\<not> (a = 0xED \<and> b \<ge> 0xA0)"
      "c = (a - 0xE0) * 4096 + (b - 0x80) * 64 + (b' - 0x80)" "k = 2"
      using assms n d unfolding utf8_step_def s by (simp_all split: if_splits)
    show ?thesis using utf8_encode_cp_3[OF d k(1,2,3,4)] k(5,6) s by simp
  next
    case e
    have n: "\<not> a < 0x80" "\<not> a < 0xC2" "\<not> a < 0xE0" "\<not> a < 0xF0" using e by simp_all
    from assms obtain b b' b'' r where s: "s = b # b' # b'' # r"
      unfolding utf8_step_def using n e
      by (auto split: list.splits if_splits)
    have k: "is_continuation_byte b" "is_continuation_byte b'" "is_continuation_byte b''"
      "\<not> (a = 0xF0 \<and> b < 0x90)" "\<not> (a = 0xF4 \<and> b \<ge> 0x90)"
      "c = (a - 0xF0) * 262144 + (b - 0x80) * 4096 + (b' - 0x80) * 64 + (b'' - 0x80)" "k = 3"
      using assms n e unfolding utf8_step_def s by (simp_all split: if_splits)
    show ?thesis using utf8_encode_cp_4[OF e k(1,2,3,4,5)] k(6,7) s by simp
  next
    case f
    then show ?thesis using assms by (simp add: utf8_step_def)
  qed
qed

text \<open>A step that emits nothing consumes continuation bytes only.\<close>

lemma utf8_step_skips:
  assumes "utf8_step a s = ([], k)"
  shows "k \<le> length s \<and> list_all is_continuation_byte (take k s)"
proof -
  consider (a) "a < 0x80" | (b) "0x80 \<le> a" "a < 0xC2" | (c) "0xC2 \<le> a" "a < 0xE0"
    | (d) "0xE0 \<le> a" "a < 0xF0" | (e) "0xF0 \<le> a" "a < 0xF5" | (f) "0xF5 \<le> a"
    by linarith
  then show ?thesis
  proof cases
    case a
    then show ?thesis using assms by (simp add: utf8_step_def)
  next
    case b
    then show ?thesis using assms by (simp add: utf8_step_def)
  next
    case c
    then show ?thesis using assms
      by (cases s) (simp_all add: utf8_step_def split: if_splits)
  next
    case d
    have n: "\<not> a < 0x80" "\<not> a < 0xC2" "\<not> a < 0xE0" using d by simp_all
    show ?thesis using assms n d unfolding utf8_step_def
      by (auto split: list.splits if_splits)
  next
    case e
    have n: "\<not> a < 0x80" "\<not> a < 0xC2" "\<not> a < 0xE0" "\<not> a < 0xF0" using e by simp_all
    show ?thesis using assms n e unfolding utf8_step_def
      by (auto split: list.splits if_splits)
  next
    case f
    then show ?thesis using assms by (simp add: utf8_step_def)
  qed
qed

lemma utf8_step_out:
  "utf8_step a s = (out, k) \<Longrightarrow> out = [] \<or> (\<exists>c. out = [c])"
  unfolding utf8_step_def by (auto split: if_splits list.splits)

lemma utf8_decode_nat_continuation:
  "list_all is_continuation_byte xs \<Longrightarrow> utf8_decode_nat (xs @ r) = utf8_decode_nat r"
proof (induction xs)
  case Nil
  then show ?case by simp
next
  case (Cons x xs)
  then have "0x80 \<le> x" "x < 0xC2" by (simp_all add: is_continuation_byte_def)
  then have "utf8_step x (xs @ r) = ([], 0)" by (simp add: utf8_step_invalid_start)
  then show ?case using Cons by simp
qed

lemma utf8_decode_nat_skip:
  assumes "utf8_step a s = ([], k)"
  shows "utf8_decode_nat (a # s) = utf8_decode_nat s"
proof -
  have k: "list_all is_continuation_byte (take k s)" using utf8_step_skips[OF assms] by simp
  have "utf8_decode_nat s = utf8_decode_nat (take k s @ drop k s)" by simp
  also have "\<dots> = utf8_decode_nat (drop k s)" by (rule utf8_decode_nat_continuation[OF k])
  finally show ?thesis using assms by simp
qed

lemma of_nat_unat_bytes: "map of_nat (map unat (bs :: byte list)) = bs"
  by (induction bs) simp_all

text \<open>A step on stored bytes either emits the code point whose encoding starts there, or
  emits nothing and then no encoding of any code point starts there.\<close>

lemma utf8_step_bytes_emits:
  assumes "utf8_step (unat (b :: byte)) (map unat rest) = ([c], k)"
  shows "k \<le> length rest \<and> utf8_encode_cp c = Inr (b # take k rest)"
proof -
  have "map of_nat (unat b # take k (map unat rest)) = b # take k rest"
    using of_nat_unat_bytes[of "take k rest"] by (simp add: take_map)
  then show ?thesis using utf8_step_emits[OF assms] by simp
qed

lemma utf8_step_bytes_nothing:
  assumes "utf8_step (unat (b :: byte)) (map unat rest) = ([], k)"
  shows "utf8_encode_cp c \<noteq> Inr (take n (b # rest))"
proof
  assume e: "utf8_encode_cp c = Inr (take n (b # rest))"
  obtain a as where m: "map unat (take n (b # rest)) = a # as"
    and s: "\<And>r. utf8_step a (as @ r) = ([c], length as)"
    using utf8_step_encode_cp[OF e] by blast
  from m obtain n' where n: "n = Suc n'" by (cases n) simp_all
  have a: "a = unat b" and as: "as = map unat (take n' rest)" using m n by simp_all
  have "map unat rest = map unat (take n' rest @ drop n' rest)" by simp
  also have "\<dots> = as @ map unat (drop n' rest)" unfolding as by (simp only: map_append)
  finally have "utf8_step (unat b) (map unat rest) = ([c], length as)" using s a by simp
  then show False using assms by simp
qed

text \<open>The decoder of the code and decoding as told with the encoder agree.\<close>

lemma decodes_to_utf8_decode_ignore: "decodes_to bs (utf8_decode_ignore bs)"
proof (induction bs rule: length_induct)
  case (1 bs)
  show ?case
  proof (cases bs)
    case Nil
    then show ?thesis by (simp add: utf8_decode_ignore_def decodes_Nil)
  next
    case (Cons b rest)
    obtain out k where st: "utf8_step (unat b) (map unat rest) = (out, k)"
      by (cases "utf8_step (unat b) (map unat rest)")
    from utf8_step_out[OF st] show ?thesis
    proof
      assume o: "out = []"
      have no: "\<forall>c n. utf8_encode_cp c \<noteq> Inr (take n (b # rest))"
        using utf8_step_bytes_nothing[OF st[unfolded o]] by blast
      have r: "decodes_to rest (utf8_decode_ignore rest)" using 1 Cons by simp
      have "utf8_decode_ignore (b # rest) = utf8_decode_ignore rest"
        unfolding utf8_decode_ignore_def
        using utf8_decode_nat_skip[OF st[unfolded o]] by simp
      then show ?thesis using decodes_skip[OF no r] Cons by simp
    next
      assume "\<exists>c. out = [c]"
      then obtain c where o: "out = [c]" by blast
      have e: "k \<le> length rest" "utf8_encode_cp c = Inr (b # take k rest)"
        using utf8_step_bytes_emits[OF st[unfolded o]] by simp_all
      have r: "decodes_to (drop k rest) (utf8_decode_ignore (drop k rest))"
        using 1 Cons by simp
      have v: "utf8_decode_ignore (b # rest) = c # utf8_decode_ignore (drop k rest)"
        unfolding utf8_decode_ignore_def using st o by (simp add: drop_map)
      have "decodes_to ((b # take k rest) @ drop k rest) (c # utf8_decode_ignore (drop k rest))"
        by (rule decodes_valid[OF e(2) r])
      then show ?thesis using v Cons by simp
    qed
  qed
qed

lemma decodes_to_unique: "decodes_to bs s \<Longrightarrow> s = utf8_decode_ignore bs"
proof (induction rule: decodes_to.induct)
  case decodes_Nil
  then show ?case by (simp add: utf8_decode_ignore_def)
next
  case (decodes_valid c e rest s)
  then show ?case
    unfolding utf8_decode_ignore_def
    using utf8_decode_nat_encode_cp[of c e "map unat rest"] by simp
next
  case (decodes_skip b rest s)
  obtain out k where st: "utf8_step (unat b) (map unat rest) = (out, k)"
    by (cases "utf8_step (unat b) (map unat rest)")
  have o: "out = []"
  proof (rule ccontr)
    assume "out \<noteq> []"
    then obtain c where o: "out = [c]" using utf8_step_out[OF st] by blast
    have "utf8_encode_cp c = Inr (take (Suc k) (b # rest))"
      using utf8_step_bytes_emits[OF st[unfolded o]] by simp
    then show False using decodes_skip.hyps(1) by blast
  qed
  have "utf8_decode_ignore (b # rest) = utf8_decode_ignore rest"
    unfolding utf8_decode_ignore_def
    using utf8_decode_nat_skip[OF st[unfolded o]] by simp
  then show ?case using decodes_skip.IH by simp
qed

lemma decodes_to_iff: "decodes_to bs s \<longleftrightarrow> s = utf8_decode_ignore bs"
  using decodes_to_unique decodes_to_utf8_decode_ignore by blast

section \<open>Reading a string field\<close>

lemma upto_4: "[i .. i + 4 - 1] = [i, i + 1, i + 2, i + 3]"
proof -
  have "[i .. i + 3] = i # [i + 1 .. i + 3]" by (simp add: upto_rec1)
  also have "[i + 1 .. i + 3] = (i + 1) # [i + 2 .. i + 3]" by (simp add: upto_rec1)
  also have "[i + 2 .. i + 3] = (i + 2) # [i + 3 .. i + 3]" by (simp add: upto_rec1)
  also have "[i + 3 .. i + 3] = [i + 3]" by simp
  finally have u: "[i .. i + 3] = [i, i + 1, i + 2, i + 3]" .
  have e: "i + 4 - 1 = i + 3" by simp
  show ?thesis unfolding e by (rule u)
qed

lemma read_uint32_stored_length:
  assumes "0 \<le> offset" "offset + 4 \<le> int (shm_size m)"
  shows "read_uint32 m offset = stored_length m offset"
proof -
  have "buf_slice m offset (offset + 4) = map (shm_buf m) [offset .. offset + 4 - 1]"
    using assms by (simp add: buf_slice_def slice_bound_def)
  then show ?thesis
    unfolding read_uint32_def stored_length_def upto_4 by simp
qed

lemma read_string_stored_payload:
  assumes "0 \<le> offset" "offset + 4 \<le> int (shm_size m)"
  shows "read_string m offset = PyStr (utf8_decode_ignore (stored_payload m offset))"
proof -
  have "buf_slice m (offset + 4) (offset + 4 + int (stored_length m offset))
          = stored_payload m offset"
    using assms by (simp add: buf_slice_def slice_bound_def stored_payload_def)
  then show ?thesis
    unfolding read_string_def read_uint32_stored_length[OF assms] by (simp add: Let_def)
qed

lemma invalid_utf8_payload: "stored_payload invalid_utf8_segment 0 = [0xFF]"
  by (simp add: stored_payload_def stored_length_def invalid_utf8_segment_def upto_rec1)

lemma mixed_utf8_payload:
  "stored_payload mixed_utf8_segment 0 = [0x61, 0xC3, 0xE2, 0x82, 0x62]"
  by (simp add: stored_payload_def stored_length_def mixed_utf8_segment_def upto_rec1)

lemma decode_invalid: "utf8_decode_ignore [0xFF] = []"
  by (simp add: utf8_decode_ignore_def utf8_step_def)

lemma decode_mixed: "utf8_decode_ignore [0x61, 0xC3, 0xE2, 0x82, 0x62] = [0x61, 0x62]"
  by (simp add: utf8_decode_ignore_def utf8_step_def is_continuation_byte_def)

text \<open>
  C3 (as the specification states it, refuted).  The specification says that the decoder
  puts U+FFFD in the place of every invalid sequence.  For a field whose stored length is 1
  and whose payload is the byte \<open>FF\<close>, the code returns the empty string, while the decoder
  of the specification returns the one-character string U+FFFD.
\<close>

theorem read_string_replacement_counterexample:
  "read_string invalid_utf8_segment 0 = PyStr []
   \<and> spec_read_string invalid_utf8_segment 0 = PyStr [0xFFFD]
   \<and> read_string invalid_utf8_segment 0 \<noteq> spec_read_string invalid_utf8_segment 0"
proof -
  have h: "(0::int) \<le> 0" "(0::int) + 4 \<le> int (shm_size invalid_utf8_segment)"
    by (simp_all add: invalid_utf8_segment_def)
  have r: "read_string invalid_utf8_segment 0 = PyStr []"
    using read_string_stored_payload[OF h] invalid_utf8_payload decode_invalid by simp
  have "buf_slice invalid_utf8_segment (0 + 4)
          (0 + 4 + int (stored_length invalid_utf8_segment 0))
        = stored_payload invalid_utf8_segment 0"
    using h by (simp add: buf_slice_def slice_bound_def stored_payload_def)
  then have s: "spec_read_string invalid_utf8_segment 0 = PyStr [0xFFFD]"
    unfolding spec_read_string_def read_uint32_stored_length[OF h] invalid_utf8_payload
    by (simp add: Let_def spec_utf8_decode_replace_def utf8_step_def)
  show ?thesis using r s by simp
qed

text \<open>
  C3 (amended).  For every buffer and every offset at which the four bytes of a length
  prefix lie inside the buffer, \<open>_read_string\<close> raises nothing and returns a string; the
  string is the decoding of the stored payload (the bytes after the prefix, as many as the
  little-endian value of the prefix says) in which the encoding of a code point gives that
  code point and a byte at which no encoding of a code point starts is dropped with
  nothing put in its place.
\<close>

theorem read_string_decodes:
  assumes "0 \<le> offset" and "offset + 4 \<le> int (shm_size m)"
  shows "(\<exists>s. read_string m offset = PyStr s)
         \<and> (\<forall>s. read_string m offset = PyStr s \<longleftrightarrow> decodes_to (stored_payload m offset) s)"
  unfolding read_string_stored_payload[OF assms] decodes_to_iff by auto

theorem read_string_decodes_witness:
  "read_string mixed_utf8_segment 0 = PyStr [0x61, 0x62]
   \<and> stored_payload mixed_utf8_segment 0 = [0x61, 0xC3, 0xE2, 0x82, 0x62]
   \<and> decodes_to (stored_payload mixed_utf8_segment 0) [0x61, 0x62]"
proof -
  have h: "(0::int) \<le> 0" "(0::int) + 4 \<le> int (shm_size mixed_utf8_segment)"
    by (simp_all add: mixed_utf8_segment_def)
  have r: "read_string mixed_utf8_segment 0 = PyStr [0x61, 0x62]"
    using read_string_stored_payload[OF h] mixed_utf8_payload decode_mixed by simp
  show ?thesis using read_string_decodes[OF h] r mixed_utf8_payload by auto
qed

section \<open>Claim C5: what the layout compiler refuses\<close>


lemma strip_prefix_append [simp]: "strip_prefix p (p @ r) = Some r"
  by (induction p) simp_all

lemma is_digit_simps [simp]:
  "is_digit CHR ''0''" "\<not> is_digit CHR '']''" "\<not> is_digit CHR ''[''" "\<not> is_digit CHR '',''"
  by (simp_all add: is_digit_def)

lemma is_shape_char_simps [simp]:
  "is_shape_char CHR '',''" "\<not> is_shape_char CHR '']''"
  by (simp_all add: is_shape_char_def is_digit_def)
































end
